theory Spec2Isabelle
  imports Main "HOL-Library.Word"
begin

section \<open>JavaScript strings\<close>

text \<open>
  A JavaScript string is a sequence of UTF-16 code units: \<open>length\<close> counts code units and
  \<open>slice(0, n)\<close> keeps the first \<open>n\<close> of them. A string literal of the source is embedded
  with \<open>js\<close>, one code unit for each (ASCII) character.
\<close>

type_synonym jsstring = "16 word list"

definition js :: "string \<Rightarrow> jsstring" where
  "js s = map (\<lambda>c. of_nat (of_char c)) s"

text \<open>\<open>Array.prototype.join\<close> on an array of strings.\<close>

fun join :: "jsstring \<Rightarrow> jsstring list \<Rightarrow> jsstring" where
  "join sep [] = []"
| "join sep [x] = x"
| "join sep (x # y # ys) = x @ sep @ join sep (y # ys)"

text \<open>
  The code units that \<open>String.prototype.trim\<close> removes: the WhiteSpace and LineTerminator
  productions of ECMAScript.
\<close>

definition isWhiteSpace :: "16 word \<Rightarrow> bool" where
  "isWhiteSpace c =
     (c = 0x0009 \<or> c = 0x000A \<or> c = 0x000B \<or> c = 0x000C \<or> c = 0x000D \<or> c = 0x0020
      \<or> c = 0x00A0 \<or> c = 0x1680 \<or> (0x2000 \<le> c \<and> c \<le> 0x200A) \<or> c = 0x2028
      \<or> c = 0x2029 \<or> c = 0x202F \<or> c = 0x205F \<or> c = 0x3000 \<or> c = 0xFEFF)"

definition trim :: "jsstring \<Rightarrow> jsstring" where
  "trim s = rev (dropWhile isWhiteSpace (rev (dropWhile isWhiteSpace s)))"

text \<open>A string in a condition is truthy when it is not empty.\<close>

definition truthy :: "jsstring \<Rightarrow> bool" where
  "truthy s = (s \<noteq> [])"

text \<open>
  Template interpolation of an integral number: its decimal digits without padding, after a
  minus sign when negative. JavaScript prints a number so when it is an integer of
  magnitude at most \<open>2^53\<close> (beyond that, digits are rounded away, and from \<open>10^21\<close> on the
  notation has an exponent). The numbers printed here are in that range: lengths of
  strings and arrays, and a message count of 54 bits (see \<open>PlaceholderParams\<close>).
\<close>

definition digit :: "nat \<Rightarrow> 16 word" where
  "digit d = of_nat (48 + d)"

fun decimal :: "nat \<Rightarrow> jsstring" where
  "decimal n = (if n < 10 then [digit n] else decimal (n div 10) @ [digit (n mod 10)])"

declare decimal.simps [simp del]

definition numberToString :: "int \<Rightarrow> jsstring" where
  "numberToString i = (if i < 0 then js ''-'' @ decimal (nat (- i)) else decimal (nat i))"

text \<open>Zero-padded fields of a formatted date or time.\<close>

definition pad2 :: "int \<Rightarrow> jsstring" where
  "pad2 i = (if i < 10 then js ''0'' @ decimal (nat i) else decimal (nat i))"

definition padTo :: "nat \<Rightarrow> int \<Rightarrow> jsstring" where
  "padTo w i = replicate (w - length (decimal (nat i))) (digit 0) @ decimal (nat i)"

section \<open>Dates: \<open>Date\<close>, \<open>Intl.DateTimeFormat\<close> and the environment\<close>

text \<open>
  An instant is a number of milliseconds since the epoch. A time zone gives, at each
  instant, the offset in milliseconds of its local time from UTC. (A zone name that
  \<open>Intl\<close> does not know is excluded by this type.)
\<close>

type_synonym timezone = "int \<Rightarrow> int"

datatype Error = RangeError | FsError

text \<open>\<open>new Date(t)\<close> is an invalid date outside this range; formatting one throws.\<close>

definition validTime :: "int \<Rightarrow> bool" where
  "validTime t = (\<bar>t\<bar> \<le> 8640000000000000)"

definition msPerDay :: int where
  "msPerDay = 86400000"

definition localDay :: "timezone \<Rightarrow> int \<Rightarrow> int" where
  "localDay tz t = (t + tz t) div msPerDay"

definition localMsOfDay :: "timezone \<Rightarrow> int \<Rightarrow> int" where
  "localMsOfDay tz t = (t + tz t) mod msPerDay"

text \<open>
  Year, month and day of a day number (days since 1970-01-01) in the proleptic Gregorian
  calendar, which is the calendar of \<open>Date\<close> and of \<open>Intl\<close> in the \<open>en-US\<close> locale.
  Days are counted from 1 March of year 0 in cycles of 400, 100, 4 and 1 years, so that
  the leap day is the last day of a cycle: \<open>yearDayFromDays\<close> gives the year that starts
  in March and the day in it, \<open>monthDayFromDoy\<close> the month and the day of the month.
\<close>

definition yearDayFromDays :: "int \<Rightarrow> int \<times> int" where
  "yearDayFromDays days =
     (let z = days + 719468;
          n400 = z div 146097;
          d0 = z mod 146097;
          n100 = min 3 (d0 div 36524);
          d1 = d0 - n100 * 36524;
          n4 = d1 div 1461;
          d2 = d1 mod 1461;
          n1 = min 3 (d2 div 365)
      in (400 * n400 + 100 * n100 + 4 * n4 + n1, d2 - n1 * 365))"

definition monthDayFromDoy :: "int \<Rightarrow> int \<times> int" where
  "monthDayFromDoy doy =
     (let mp = (5 * doy + 2) div 153
      in (if mp < 10 then mp + 3 else mp - 9, doy - (153 * mp + 2) div 5 + 1))"

definition civilFromDays :: "int \<Rightarrow> int \<times> int \<times> int" where
  "civilFromDays days =
     (case yearDayFromDays days of
        (y, doy) \<Rightarrow>
          (case monthDayFromDoy doy of
             (m, d) \<Rightarrow> (if m \<le> 2 then y + 1 else y, m, d)))"

text \<open>
  The \<open>year\<close>, \<open>month\<close> and \<open>day\<close> parts of
  \<open>Intl.DateTimeFormat("en-US", {year: "numeric", month: "2-digit", day: "2-digit"})\<close>:
  the year of the era without padding, month and day on two digits.
\<close>

definition formatToParts :: "timezone \<Rightarrow> int \<Rightarrow> jsstring \<times> jsstring \<times> jsstring" where
  "formatToParts tz t =
     (case civilFromDays (localDay tz t) of
        (y, m, d) \<Rightarrow> (decimal (nat (if y \<le> 0 then 1 - y else y)), pad2 m, pad2 d))"

text \<open>\<open>Date.prototype.toISOString\<close>, in UTC, with the expanded year outside 0..9999.\<close>

definition toISOString :: "int \<Rightarrow> jsstring" where
  "toISOString t =
     (case civilFromDays (t div msPerDay) of
        (y, m, d) \<Rightarrow>
          (let ms = t mod msPerDay in
           (if 0 \<le> y \<and> y \<le> 9999 then padTo 4 y
            else (if y < 0 then js ''-'' else js ''+'') @ padTo 6 \<bar>y\<bar>)
           @ js ''-'' @ pad2 m @ js ''-'' @ pad2 d @ js ''T''
           @ pad2 (ms div 3600000) @ js '':'' @ pad2 (ms div 60000 mod 60) @ js '':''
           @ pad2 (ms div 1000 mod 60) @ js ''.'' @ padTo 3 (ms mod 1000) @ js ''Z''))"

text \<open>
  What the module reads from its surroundings: the system time zone
  (\<open>Intl.DateTimeFormat().resolvedOptions().timeZone\<close>), the clock (\<open>Date.now()\<close>), the
  platform's \<open>path.join\<close>, the platform's directories above a path (nearest first: the
  chain of \<open>path.dirname\<close>), and whether the engine prints the hour of midnight as \<open>24\<close>
  under \<open>hour12: false\<close> (engines differ).
\<close>

record Env =
  systemTimeZone :: timezone
  dateNow :: int
  pathJoin :: "jsstring \<Rightarrow> jsstring \<Rightarrow> jsstring"
  parentDirs :: "jsstring \<Rightarrow> jsstring list"
  midnightIs24 :: bool

subsection \<open>formatDateStamp, formatTimeStamp\<close>

definition formatDateStamp :: "Env \<Rightarrow> int \<Rightarrow> timezone option \<Rightarrow> Error + jsstring" where
  "formatDateStamp env nowMs timezone =
     (let tz = (case timezone of Some z \<Rightarrow> z | None \<Rightarrow> systemTimeZone env) in
      if \<not> validTime nowMs then Inl RangeError
      else (case formatToParts tz nowMs of
              (year, month, day) \<Rightarrow>
                if truthy year \<and> truthy month \<and> truthy day
                then Inr (year @ js ''-'' @ month @ js ''-'' @ day)
                else Inr (take 10 (toISOString nowMs))))"

definition formatTimeStamp :: "Env \<Rightarrow> int \<Rightarrow> timezone option \<Rightarrow> Error + jsstring" where
  "formatTimeStamp env nowMs timezone =
     (let tz = (case timezone of Some z \<Rightarrow> z | None \<Rightarrow> systemTimeZone env) in
      if \<not> validTime nowMs then Inl RangeError
      else (let ms = localMsOfDay tz nowMs;
                hour = ms div 3600000
            in Inr ((if hour = 0 \<and> midnightIs24 env then js ''24'' else pad2 hour)
                    @ js '':'' @ pad2 (ms div 60000 mod 60)
                    @ js '':'' @ pad2 (ms div 1000 mod 60))))"

section \<open>Messages\<close>

text \<open>
  The content blocks of \<open>AgentMessage\<close>: text, thinking, tool call (the arguments are never
  read), and any other block type (an image, for one).
\<close>

datatype ContentBlock =
    TextContent jsstring
  | ThinkingContent jsstring
  | ToolCallContent jsstring
  | OtherContent

text \<open>The content of a user message is a plain string or an array of blocks.\<close>

datatype UserContent = ContentString jsstring | ContentBlocks "ContentBlock list"

text \<open>
  A message is tagged by its role. The tool name of a tool result is read through a cast
  and may be missing. \<open>OtherMessage\<close> stands for every other role.
\<close>

datatype AgentMessage =
    UserMessage UserContent
  | AssistantMessage "ContentBlock list"
  | ToolResultMessage "jsstring option" "ContentBlock list"
  | OtherMessage

subsection \<open>extractMessageText\<close>

text \<open>The three loops of \<open>extractMessageText\<close>, each pushing onto \<open>parts\<close>.\<close>

fun userParts :: "ContentBlock list \<Rightarrow> jsstring list \<Rightarrow> jsstring list" where
  "userParts [] parts = parts"
| "userParts (block # rest) parts =
     (case block of
        TextContent text \<Rightarrow> userParts rest (parts @ [text])
      | _ \<Rightarrow> userParts rest parts)"

fun assistantParts :: "ContentBlock list \<Rightarrow> jsstring list \<Rightarrow> jsstring list" where
  "assistantParts [] parts = parts"
| "assistantParts (block # rest) parts =
     (case block of
        TextContent text \<Rightarrow> assistantParts rest (parts @ [text])
      | ThinkingContent thinking \<Rightarrow>
          assistantParts rest (parts @ [js ''[thinking: '' @ take 200 thinking @ js ''...]''])
      | ToolCallContent toolName \<Rightarrow>
          assistantParts rest (parts @ [js ''[tool: '' @ toolName @ js '']''])
      | OtherContent \<Rightarrow> assistantParts rest parts)"

fun toolResultParts :: "ContentBlock list \<Rightarrow> jsstring list \<Rightarrow> jsstring list" where
  "toolResultParts [] parts = parts"
| "toolResultParts (block # rest) parts =
     (case block of
        TextContent text \<Rightarrow>
          (if length text > 500
           then toolResultParts rest
                  (parts @ [take 500 text @ js ''... [truncated ''
                            @ numberToString (int (length text) - 500) @ js '' chars]''])
           else toolResultParts rest (parts @ [text]))
      | _ \<Rightarrow> toolResultParts rest parts)"

fun extractMessageText :: "AgentMessage \<Rightarrow> jsstring" where
  "extractMessageText (UserMessage (ContentString content)) = content"
| "extractMessageText (UserMessage (ContentBlocks content)) =
     join (js [CHR 0x0A]) (userParts content [])"
| "extractMessageText (AssistantMessage content) =
     join (js [CHR 0x0A]) (assistantParts content [])"
| "extractMessageText (ToolResultMessage toolName content) =
     js ''['' @ (case toolName of None \<Rightarrow> js ''tool'' | Some n \<Rightarrow> n) @ js '' result]: ''
       @ join (js [CHR 0x0A]) (toolResultParts content [])"
| "extractMessageText OtherMessage = []"

subsection \<open>formatMessagesAsMarkdown\<close>

definition ARCHIVE_MARKER :: jsstring where
  "ARCHIVE_MARKER = js ''[ARCHIVED_CONVERSATION]''"

text \<open>
  The role labels start with an emoji, two code units each (U+1F464, U+1F916, U+1F527),
  followed by a space and the name.
\<close>

definition roleLabel :: "AgentMessage \<Rightarrow> jsstring" where
  "roleLabel message =
     (case message of
        UserMessage _ \<Rightarrow> [0xD83D, 0xDC64] @ js '' User''
      | AssistantMessage _ \<Rightarrow> [0xD83E, 0xDD16] @ js '' Assistant''
      | _ \<Rightarrow> [0xD83D, 0xDD27] @ js '' Tool'')"

text \<open>The loop over the messages, pushing onto \<open>lines\<close>.\<close>

fun messageLines :: "AgentMessage list \<Rightarrow> jsstring list \<Rightarrow> jsstring list" where
  "messageLines [] lines = lines"
| "messageLines (message # rest) lines =
     (let role = roleLabel message;
          text = extractMessageText message
      in if truthy (trim text)
         then messageLines rest (lines @ [js ''### '' @ role, [], text, []])
         else messageLines rest lines)"

definition formatMessagesAsMarkdown ::
  "Env \<Rightarrow> AgentMessage list \<Rightarrow> jsstring option \<Rightarrow> int option \<Rightarrow> Error + jsstring" where
  "formatMessagesAsMarkdown env messages sessionKey timestamp =
     (let nowMs = (case timestamp of Some t \<Rightarrow> t | None \<Rightarrow> dateNow env) in
      case formatDateStamp env nowMs None of
        Inl e \<Rightarrow> Inl e
      | Inr dateStamp \<Rightarrow>
          (case formatTimeStamp env nowMs None of
             Inl e \<Rightarrow> Inl e
           | Inr timeStamp \<Rightarrow>
               (let lines =
                      [ [],
                        js ''## '' @ ARCHIVE_MARKER,
                        js ''**Archived at:** '' @ dateStamp @ js '' '' @ timeStamp,
                        (case sessionKey of
                           Some k \<Rightarrow> if truthy k then js ''**Session:** '' @ k else []
                         | None \<Rightarrow> []),
                        js ''**Messages:** '' @ numberToString (int (length messages)),
                        [],
                        js ''---'',
                        [] ];
                    lines2 = messageLines messages lines
                in Inr (join (js [CHR 0x0A]) (lines2 @ [js ''---'', []])))))"

section \<open>The file system\<close>

text \<open>
  The files and directories the module touches, by path. File contents are kept as text
  (the UTF-8 bytes on disk are not modelled). The failures modelled are those that the
  nodes at the path and above it decide; permissions and a full disk are not modelled.
\<close>

datatype Node = File jsstring | Directory

type_synonym FileSystem = "jsstring \<rightharpoonup> Node"

definition isFile :: "Node option \<Rightarrow> bool" where
  "isFile n = (case n of Some (File c) \<Rightarrow> True | _ \<Rightarrow> False)"

text \<open>
  \<open>fs.mkdir(dir, {recursive: true})\<close>: it fails when \<open>dir\<close> or a directory above it is a
  file; otherwise it creates the missing ones among them, with no error when \<open>dir\<close> is
  there already.
\<close>

definition mkdir :: "Env \<Rightarrow> jsstring \<Rightarrow> FileSystem \<Rightarrow> Error + FileSystem" where
  "mkdir env dir fs =
     (if list_ex (\<lambda>d. isFile (fs d)) (dir # parentDirs env dir) then Inl FsError
      else Inr (foldr (\<lambda>d f. f(d \<mapsto> Directory)) (dir # parentDirs env dir) fs))"

text \<open>
  \<open>fs.appendFile(path, data)\<close>: it fails when \<open>path\<close> is a directory or the directory of
  \<open>path\<close> is not one; it creates the file when it does not exist.
\<close>

definition appendFile ::
  "Env \<Rightarrow> jsstring \<Rightarrow> jsstring \<Rightarrow> FileSystem \<Rightarrow> Error + FileSystem" where
  "appendFile env path data fs =
     (if fs path = Some Directory then Inl FsError
      else if (case parentDirs env path of [] \<Rightarrow> False | d # ds \<Rightarrow> fs d \<noteq> Some Directory)
      then Inl FsError
      else (case fs path of
              Some (File old) \<Rightarrow> Inr (fs(path \<mapsto> File (old @ data)))
            | _ \<Rightarrow> Inr (fs(path \<mapsto> File data))))"

section \<open>archiveMessagesToMemory\<close>

record ArchiveParams =
  messages :: "AgentMessage list"
  workspaceDir :: jsstring
  sessionKey :: "jsstring option"
  timestamp :: "int option"
  timezone :: "timezone option"

record ArchiveResult =
  archivePath :: jsstring
  messageCount :: nat

text \<open>
  The promise resolves with a result or rejects with an error; the file system is returned
  as the call left it in both cases.
\<close>

definition archiveMessagesToMemory ::
  "Env \<Rightarrow> ArchiveParams \<Rightarrow> FileSystem \<Rightarrow> (Error + ArchiveResult) \<times> FileSystem" where
  "archiveMessagesToMemory env params fs =
     (let nowMs = (case timestamp params of Some t \<Rightarrow> t | None \<Rightarrow> dateNow env) in
      case formatDateStamp env nowMs (timezone params) of
        Inl e \<Rightarrow> (Inl e, fs)
      | Inr dateStamp \<Rightarrow>
          (let memoryDir = pathJoin env (workspaceDir params) (js ''memory'') in
           case mkdir env memoryDir fs of
             Inl e \<Rightarrow> (Inl e, fs)
           | Inr fs1 \<Rightarrow>
               (let archivePath = pathJoin env memoryDir (dateStamp @ js ''.md'') in
                case formatMessagesAsMarkdown env (messages params) (sessionKey params)
                       (Some nowMs) of
                  Inl e \<Rightarrow> (Inl e, fs1)
                | Inr content \<Rightarrow>
                    (case appendFile env archivePath content fs1 of
                       Inl e \<Rightarrow> (Inl e, fs1)
                     | Inr fs2 \<Rightarrow>
                         (Inr \<lparr>archivePath = archivePath,
                               messageCount = length (messages params)\<rparr>, fs2)))))"

section \<open>createDropPlaceholder\<close>

text \<open>
  The message count is a number; it is modelled as a signed integer of 54 bits, the range
  in which every integer is a number and is printed with all its digits.
\<close>

record PlaceholderParams =
  pMessageCount :: "54 word"
  pArchivePath :: "jsstring option"
  pTimestamp :: "int option"

definition createDropPlaceholder :: "Env \<Rightarrow> PlaceholderParams \<Rightarrow> Error + jsstring" where
  "createDropPlaceholder env params =
     (let nowMs = (case pTimestamp params of Some t \<Rightarrow> t | None \<Rightarrow> dateNow env) in
      case formatDateStamp env nowMs None of
        Inl e \<Rightarrow> Inl e
      | Inr dateStamp \<Rightarrow>
          (case formatTimeStamp env nowMs None of
             Inl e \<Rightarrow> Inl e
           | Inr timeStamp \<Rightarrow>
               (let lines =
                      [ js ''[Earlier conversation archived at '' @ dateStamp @ js '' ''
                          @ timeStamp @ js '']'',
                        numberToString (sint (pMessageCount params))
                          @ js '' messages moved to memory for RAG retrieval.'' ];
                    lines2 =
                      (case pArchivePath params of
                         Some p \<Rightarrow> if truthy p then lines @ [js ''Archive: '' @ p] else lines
                       | None \<Rightarrow> lines)
                in Inr (join (js [CHR 0x0A])
                          (lines2 @ [js ''Use memory_search to retrieve past context if needed.''])))))"

section \<open>Session reset policy\<close>

text \<open>
  Modelled from the spec: \<open>resolveSessionResetPolicy\<close> and \<open>evaluateSessionFreshness\<close>
  of \<open>reset.ts\<close>, which is not among the sources (only its tests are). The policy is a
  mode with its parameters: \<open>atHour\<close> for the daily mode, \<open>idleMinutes\<close> for the idle mode.
\<close>

datatype ResetMode = Never | Daily | Idle

record SessionResetPolicy =
  mode :: ResetMode
  atHour :: int
  idleMinutes :: "int option"

record SessionFreshness =
  fresh :: bool
  dailyResetAt :: "int option"
  idleExpiresAt :: "int option"

text \<open>
  Modelled from the spec: the session configuration, with an optional global policy and an
  optional map of policies by session type.
\<close>

record SessionConfig =
  reset :: "SessionResetPolicy option"
  resetByType :: "(jsstring \<rightharpoonup> SessionResetPolicy) option"

definition DEFAULT_RESET_POLICY :: SessionResetPolicy where
  "DEFAULT_RESET_POLICY = \<lparr>mode = Daily, atHour = 4, idleMinutes = None\<rparr>"

text \<open>
  Modelled from the spec: the resolution is a chain of optional lookups, the first present
  wins: the override, the entry of the session type, the global policy, the default.
\<close>

fun firstPresent :: "'a option list \<Rightarrow> 'a \<Rightarrow> 'a" where
  "firstPresent [] d = d"
| "firstPresent (Some x # rest) d = x"
| "firstPresent (None # rest) d = firstPresent rest d"

definition resolveSessionResetPolicy ::
  "SessionConfig \<Rightarrow> jsstring \<Rightarrow> SessionResetPolicy option \<Rightarrow> SessionResetPolicy" where
  "resolveSessionResetPolicy sessionCfg resetType resetOverride =
     firstPresent
       [ resetOverride,
         (case resetByType sessionCfg of Some byType \<Rightarrow> byType resetType | None \<Rightarrow> None),
         reset sessionCfg ]
       DEFAULT_RESET_POLICY"

text \<open>
  Modelled from the spec: the daily boundary is the start of the current reset day, the
  latest instant at \<open>atHour:00:00\<close> local time that is not after \<open>now\<close>. Local time is
  UTC plus \<open>offset\<close> milliseconds (the zone is the implementation's choice; its offset is
  taken as constant over the days concerned).
\<close>

definition dailyBoundary :: "int \<Rightarrow> int \<Rightarrow> int \<Rightarrow> int" where
  "dailyBoundary offset hour now =
     (let local = now + offset;
          candidate = (local div msPerDay) * msPerDay + hour * 3600000
      in (if candidate \<le> local then candidate else candidate - msPerDay) - offset)"

text \<open>
  Modelled from the spec: the evaluator, one case for each mode. The spec does not say
  what the idle mode does when no \<open>idleMinutes\<close> is given; the model then reports a fresh
  session with no expiry.
\<close>

definition evaluateSessionFreshness ::
  "int \<Rightarrow> int \<Rightarrow> int \<Rightarrow> SessionResetPolicy \<Rightarrow> SessionFreshness" where
  "evaluateSessionFreshness offset updatedAt now policy =
     (case mode policy of
        Never \<Rightarrow> \<lparr>fresh = True, dailyResetAt = None, idleExpiresAt = None\<rparr>
      | Daily \<Rightarrow>
          (let boundary = dailyBoundary offset (atHour policy) now
           in \<lparr>fresh = (updatedAt \<ge> boundary), dailyResetAt = Some boundary,
               idleExpiresAt = None\<rparr>)
      | Idle \<Rightarrow>
          (case idleMinutes policy of
             Some minutes \<Rightarrow>
               (let expires = updatedAt + minutes * 60000
                in \<lparr>fresh = (now < expires), dailyResetAt = None,
                    idleExpiresAt = Some expires\<rparr>)
           | None \<Rightarrow> \<lparr>fresh = True, dailyResetAt = None, idleExpiresAt = None\<rparr>))"

section \<open>Vocabulary of the properties\<close>

text \<open>
  A string of the shape \<open>YYYY-MM-DD\<close>: four digits, a hyphen, two digits, a hyphen, two
  digits; and a string that has such a substring.
\<close>

definition isDigit :: "16 word \<Rightarrow> bool" where
  "isDigit c = (0x30 \<le> c \<and> c \<le> 0x39)"

definition dateShaped :: "jsstring \<Rightarrow> bool" where
  "dateShaped s =
     (length s = 10 \<and> list_all isDigit (take 4 s) \<and> take 1 (drop 4 s) = js ''-''
      \<and> list_all isDigit (take 2 (drop 5 s)) \<and> take 1 (drop 7 s) = js ''-''
      \<and> list_all isDigit (drop 8 s))"

fun hasDate :: "jsstring \<Rightarrow> bool" where
  "hasDate [] = False"
| "hasDate (c # cs) = (dateShaped (take 10 (c # cs)) \<or> hasDate cs)"

text \<open>Time zones for the examples: UTC, and Tokyo at UTC+9.\<close>

definition utc :: timezone where
  "utc = (\<lambda>t. 0)"

definition tokyo :: timezone where
  "tokyo = (\<lambda>t. 32400000)"

section \<open>A POSIX host\<close>

text \<open>
  The \<open>path\<close> module of Node.js on a POSIX platform, for the examples. \<open>posixNormalize\<close>
  drops empty and \<open>.\<close> segments and resolves \<open>..\<close> segments (above the start of a relative
  path they are kept, above the root they are dropped), keeping a leading and a trailing
  separator; \<open>posixJoin\<close> joins the non-empty parts with a separator and normalises.
\<close>

fun splitOn :: "16 word \<Rightarrow> jsstring \<Rightarrow> jsstring list" where
  "splitOn sep [] = [[]]"
| "splitOn sep (c # cs) =
     (if c = sep then [] # splitOn sep cs
      else (case splitOn sep cs of
              [] \<Rightarrow> [[c]]
            | seg # segs \<Rightarrow> (c # seg) # segs))"

fun normalizeSegments :: "bool \<Rightarrow> jsstring list \<Rightarrow> jsstring list \<Rightarrow> jsstring list" where
  "normalizeSegments allowAboveRoot res [] = res"
| "normalizeSegments allowAboveRoot res (seg # segs) =
     (if seg = [] \<or> seg = js ''.'' then normalizeSegments allowAboveRoot res segs
      else if seg = js ''..'' then
        (if res \<noteq> [] \<and> last res \<noteq> js ''..''
         then normalizeSegments allowAboveRoot (butlast res) segs
         else if allowAboveRoot then normalizeSegments allowAboveRoot (res @ [seg]) segs
         else normalizeSegments allowAboveRoot res segs)
      else normalizeSegments allowAboveRoot (res @ [seg]) segs)"

definition posixNormalize :: "jsstring \<Rightarrow> jsstring" where
  "posixNormalize path =
     (if path = [] then js ''.''
      else
        (let isAbsolute = (hd path = 0x2F);
             trailingSeparator = (last path = 0x2F);
             body = join (js ''/'') (normalizeSegments (\<not> isAbsolute) [] (splitOn 0x2F path))
         in if body = []
            then (if isAbsolute then js ''/'' else if trailingSeparator then js ''./'' else js ''.'')
            else (if isAbsolute then js ''/'' else []) @ body
                 @ (if trailingSeparator then js ''/'' else [])))"

definition posixJoin :: "jsstring \<Rightarrow> jsstring \<Rightarrow> jsstring" where
  "posixJoin a b =
     (let parts = filter (\<lambda>part. part \<noteq> []) [a, b]
      in if parts = [] then js ''.'' else posixNormalize (join (js ''/'') parts))"

text \<open>
  \<open>path.dirname\<close>: the path up to the last separator that is followed by a segment,
  trailing separators set aside; \<open>/\<close> or \<open>.\<close> when there is no such separator. The
  directories above a path are the chain of \<open>dirname\<close> up to its fixed point.
\<close>

definition posixDirname :: "jsstring \<Rightarrow> jsstring" where
  "posixDirname path =
     (case path of
        [] \<Rightarrow> js ''.''
      | c # cs \<Rightarrow>
          (case dropWhile (\<lambda>x. x \<noteq> 0x2F) (dropWhile (\<lambda>x. x = 0x2F) (rev cs)) of
             [] \<Rightarrow> (if c = 0x2F then js ''/'' else js ''.'')
           | slash # front \<Rightarrow>
               (if c = 0x2F \<and> front = [] then js ''//'' else c # rev front)))"

fun dirnameChain :: "nat \<Rightarrow> jsstring \<Rightarrow> jsstring list" where
  "dirnameChain 0 path = []"
| "dirnameChain (Suc n) path =
     (let dir = posixDirname path
      in if dir = path then [] else dir # dirnameChain n dir)"

definition posixParents :: "jsstring \<Rightarrow> jsstring list" where
  "posixParents path = dirnameChain (Suc (length path)) path"

definition posixEnv :: "timezone \<Rightarrow> Env" where
  "posixEnv tz =
     \<lparr>systemTimeZone = tz, dateNow = 0, pathJoin = posixJoin, parentDirs = posixParents,
      midnightIs24 = False\<rparr>"

section \<open>Properties of the string and number functions\<close>

lemma decimal_nonempty: "decimal n \<noteq> []"
  by (subst decimal.simps) simp

lemma isDigit_digit: "d < 10 \<Longrightarrow> isDigit (digit d)"
proof -
  assume "d < 10"
  then have "d \<in> {0,1,2,3,4,5,6,7,8,9}" by auto
  then show ?thesis by (auto simp add: isDigit_def digit_def)
qed

lemma decimal_digits: "list_all isDigit (decimal n)"
proof (induction n rule: decimal.induct)
  case (1 n)
  show ?case
  proof (cases "n < 10")
    case True
    then show ?thesis by (subst decimal.simps) (simp add: isDigit_digit)
  next
    case False
    with 1 show ?thesis by (subst decimal.simps) (simp add: isDigit_digit)
  qed
qed

lemma decimal_length_10: "n < 10 \<Longrightarrow> length (decimal n) = 1"
  by (subst decimal.simps) simp

lemma decimal_length_100: "10 \<le> n \<Longrightarrow> n < 100 \<Longrightarrow> length (decimal n) = 2"
  by (subst decimal.simps) (simp add: decimal_length_10)

lemma decimal_unfold: "10 \<le> n \<Longrightarrow> decimal n = decimal (n div 10) @ [digit (n mod 10)]"
  by (subst decimal.simps) simp

lemma decimal_length_ge4: "1000 \<le> n \<Longrightarrow> 4 \<le> length (decimal n)"
proof -
  assume n: "1000 \<le> n"
  then have a: "10 \<le> n" and b: "10 \<le> n div 10" and c: "10 \<le> n div 10 div 10" by arith+
  have "decimal (n div 10 div 10 div 10) \<noteq> []" by (rule decimal_nonempty)
  then have "1 \<le> length (decimal (n div 10 div 10 div 10))"
    by (cases "decimal (n div 10 div 10 div 10)") simp_all
  then show ?thesis
    by (simp add: decimal_unfold [OF a] decimal_unfold [OF b] decimal_unfold [OF c])
qed

lemma pad2_shape: "0 \<le> i \<Longrightarrow> i < 100 \<Longrightarrow> length (pad2 i) = 2 \<and> list_all isDigit (pad2 i)"
proof -
  assume i: "0 \<le> i" "i < 100"
  have z: "isDigit (0x30)" by (simp add: isDigit_def)
  show ?thesis
  proof (cases "i < 10")
    case True
    with i have "nat i < 10" by simp
    with True show ?thesis
      by (simp add: pad2_def js_def decimal_length_10 decimal_digits z)
  next
    case False
    with i have "10 \<le> nat i" "nat i < 100" by simp_all
    with False show ?thesis
      by (simp add: pad2_def decimal_length_100 decimal_digits)
  qed
qed

lemma pad2_nonempty: "pad2 i \<noteq> []"
  by (simp add: pad2_def decimal_nonempty)

subsection \<open>The calendar\<close>

lemma md_of_doy:
  fixes doy :: int
  assumes "0 \<le> doy" "doy \<le> 365"
  shows "1 \<le> doy - (153 * ((5 * doy + 2) div 153) + 2) div 5 + 1
       \<and> doy - (153 * ((5 * doy + 2) div 153) + 2) div 5 + 1 \<le> 31"
  using assms by arith

lemma mp_of_doy:
  fixes doy :: int
  assumes "0 \<le> doy" "doy \<le> 365"
  shows "0 \<le> (5 * doy + 2) div 153 \<and> (5 * doy + 2) div 153 \<le> 11"
  using assms by arith

lemma doy_bounds:
  fixes d2 :: int
  assumes "0 \<le> d2" "d2 \<le> 1460"
  shows "0 \<le> d2 - min 3 (d2 div 365) * 365 \<and> d2 - min 3 (d2 div 365) * 365 \<le> 365"
  using assms by arith


lemma yearDayFromDays_bounds:
  assumes "yearDayFromDays days = (y, doy)"
  shows "0 \<le> doy \<and> doy \<le> 365"
proof -
  define d2 where "d2 = ((days + 719468) mod 146097
                         - min 3 ((days + 719468) mod 146097 div 36524) * 36524) mod 1461"
  have "0 \<le> d2" "d2 \<le> 1460" by (simp_all add: d2_def)
  then have "0 \<le> d2 - min 3 (d2 div 365) * 365 \<and> d2 - min 3 (d2 div 365) * 365 \<le> 365"
    by (rule doy_bounds)
  moreover have "doy = d2 - min 3 (d2 div 365) * 365"
    using assms unfolding yearDayFromDays_def Let_def d2_def by simp
  ultimately show ?thesis by simp
qed

lemma monthDayFromDoy_bounds:
  assumes "0 \<le> doy" "doy \<le> 365" "monthDayFromDoy doy = (m, d)"
  shows "1 \<le> m \<and> m \<le> 12 \<and> 1 \<le> d \<and> d \<le> 31"
proof -
  define mp where "mp = (5 * doy + 2) div 153"
  have mp: "0 \<le> mp \<and> mp \<le> 11"
    unfolding mp_def using assms(1,2) by (rule mp_of_doy)
  have m: "m = (if mp < 10 then mp + 3 else mp - 9)"
    using assms(3) unfolding monthDayFromDoy_def Let_def mp_def by simp
  have d: "d = doy - (153 * mp + 2) div 5 + 1"
    using assms(3) unfolding monthDayFromDoy_def Let_def mp_def by simp
  have "1 \<le> d \<and> d \<le> 31"
    unfolding d mp_def using assms(1,2) by (rule md_of_doy)
  moreover have "1 \<le> m \<and> m \<le> 12" using mp unfolding m by auto
  ultimately show ?thesis by simp
qed

lemma civilFromDays_bounds:
  assumes "civilFromDays days = (y, m, d)"
  shows "1 \<le> m \<and> m \<le> 12 \<and> 1 \<le> d \<and> d \<le> 31"
proof -
  obtain y0 doy where yd: "yearDayFromDays days = (y0, doy)" by (cases "yearDayFromDays days")
  obtain m0 dd where md: "monthDayFromDoy doy = (m0, dd)" by (cases "monthDayFromDoy doy")
  from yd have "0 \<le> doy \<and> doy \<le> 365" by (rule yearDayFromDays_bounds)
  then have "1 \<le> m0 \<and> m0 \<le> 12 \<and> 1 \<le> dd \<and> dd \<le> 31"
    using md monthDayFromDoy_bounds by blast
  moreover have "m = m0" "d = dd" using assms yd md by (simp_all add: civilFromDays_def)
  ultimately show ?thesis by simp
qed

subsection \<open>Text extraction\<close>

lemma truthy_trim: "truthy (trim s) = (\<exists>c\<in>set s. \<not> isWhiteSpace c)"
proof (cases "\<forall>c\<in>set s. isWhiteSpace c")
  case True
  then have dw: "dropWhile isWhiteSpace s = []" by simp
  have "trim s = []" unfolding trim_def dw by simp
  with True show ?thesis by (simp add: truthy_def)
next
  case False
  then have ne: "dropWhile isWhiteSpace s \<noteq> []" by simp
  then have "\<not> isWhiteSpace (hd (dropWhile isWhiteSpace s))" by (rule hd_dropWhile)
  moreover from ne have "hd (dropWhile isWhiteSpace s) \<in> set (rev (dropWhile isWhiteSpace s))"
    by simp
  ultimately have "dropWhile isWhiteSpace (rev (dropWhile isWhiteSpace s)) \<noteq> []"
    by (auto simp only: dropWhile_eq_Nil_conv)
  with False show ?thesis by (auto simp add: truthy_def trim_def)
qed

lemma toolResultParts_map:
  "toolResultParts content parts =
     parts @ map (\<lambda>t. if 500 < length t
                       then take 500 t @ js ''... [truncated ''
                            @ numberToString (int (length t) - 500) @ js '' chars]''
                       else t)
               [t. TextContent t \<leftarrow> content]"
proof (induction content arbitrary: parts)
  case Nil
  show ?case by simp
next
  case (Cons block rest)
  show ?case by (cases block) (simp_all add: Cons.IH)
qed

lemma toolResult_visible:
  "truthy (trim (extractMessageText (ToolResultMessage toolName content)))"
proof -
  have "\<not> isWhiteSpace 0x5B" by (simp add: isWhiteSpace_def)
  then show ?thesis by (auto simp add: truthy_trim js_def)
qed

lemma messageLines_append:
  "messageLines (xs @ ys) lines = messageLines ys (messageLines xs lines)"
  by (induction xs arbitrary: lines) (simp_all add: Let_def)

lemma messageLines_filter:
  "messageLines msgs lines =
     lines @ concat (map (\<lambda>m. [js ''### '' @ roleLabel m, [], extractMessageText m, []])
                       (filter (\<lambda>m. truthy (trim (extractMessageText m))) msgs))"
  by (induction msgs arbitrary: lines) (simp_all add: Let_def)

text \<open>
  C7. In the text extracted from a tool-result message, every text block longer than 500
  code units is cut to its first 500 followed by \<open>... [truncated N chars]\<close> with \<open>N\<close> the
  length beyond 500, every shorter block is kept as it is, the blocks are joined by line
  breaks, and the whole is prefixed by \<open>[<toolName> result]: \<close>, with \<open>tool\<close> for a missing
  tool name.
\<close>

theorem toolResult_text_truncated:
  "extractMessageText (ToolResultMessage toolName content) =
     js ''['' @ (case toolName of None \<Rightarrow> js ''tool'' | Some n \<Rightarrow> n) @ js '' result]: ''
     @ join (js [CHR 0x0A])
         (map (\<lambda>t. if 500 < length t
                    then take 500 t @ js ''... [truncated ''
                         @ numberToString (int (length t) - 500) @ js '' chars]''
                    else t)
            [t. TextContent t \<leftarrow> content])"
  by (simp add: toolResultParts_map)

theorem toolResult_text_truncated_witness:
  "extractMessageText
     (ToolResultMessage None
        [TextContent (replicate 501 0x78), OtherContent, TextContent (js ''ok'')]) =
   js ''[tool result]: '' @ replicate 500 0x78 @ js ''... [truncated 1 chars]''
     @ js [CHR 0x0A] @ js ''ok''"
  using toolResult_text_truncated
    [of None "[TextContent (replicate 501 0x78), OtherContent, TextContent (js ''ok'')]"]
  by (simp add: js_def numberToString_def decimal.simps digit_def)

text \<open>
  C10. The text extracted from a tool-result message starts with the prefix
  \<open>[<toolName> result]: \<close> (\<open>tool\<close> for a missing name), so it is never blank, and the
  message is rendered with the tool subheading wherever it stands in the batch, also with
  no text block at all; a user message with an empty string and an assistant message
  without blocks are left out.
\<close>

theorem toolResult_always_rendered:
  "(\<exists>rest. extractMessageText (ToolResultMessage toolName content) =
       js ''['' @ (case toolName of None \<Rightarrow> js ''tool'' | Some n \<Rightarrow> n) @ js '' result]: ''
       @ rest)
   \<and> truthy (trim (extractMessageText (ToolResultMessage toolName content)))
   \<and> messageLines (before @ ToolResultMessage toolName content # after) lines =
       messageLines after
         (messageLines before lines
          @ [js ''### '' @ [0xD83D, 0xDD27] @ js '' Tool'', [],
             extractMessageText (ToolResultMessage toolName content), []])
   \<and> messageLines [ToolResultMessage toolName []] lines =
       lines @ [js ''### '' @ [0xD83D, 0xDD27] @ js '' Tool'', [],
                js ''['' @ (case toolName of None \<Rightarrow> js ''tool'' | Some n \<Rightarrow> n)
                @ js '' result]: '', []]
   \<and> messageLines [UserMessage (ContentString [])] lines = lines
   \<and> messageLines [AssistantMessage []] lines = lines"
proof -
  have vis: "\<And>c. truthy (trim (extractMessageText (ToolResultMessage toolName c)))"
    by (rule toolResult_visible)
  have blank: "\<not> truthy (trim [])" by (simp add: truthy_trim)
  have "messageLines (before @ ToolResultMessage toolName content # after) lines =
       messageLines after
         (messageLines before lines
          @ [js ''### '' @ [0xD83D, 0xDD27] @ js '' Tool'', [],
             extractMessageText (ToolResultMessage toolName content), []])"
    using vis [of content] by (simp add: messageLines_append Let_def roleLabel_def)
  moreover have "messageLines [ToolResultMessage toolName []] lines =
       lines @ [js ''### '' @ [0xD83D, 0xDD27] @ js '' Tool'', [],
                js ''['' @ (case toolName of None \<Rightarrow> js ''tool'' | Some n \<Rightarrow> n)
                @ js '' result]: '', []]"
    using vis [of "[]"] by (simp add: Let_def roleLabel_def)
  moreover have "messageLines [UserMessage (ContentString [])] lines = lines"
    using blank by simp
  moreover have "messageLines [AssistantMessage []] lines = lines"
    using blank by simp
  ultimately show ?thesis using vis [of content] by simp
qed

theorem toolResult_always_rendered_witness:
  "messageLines [UserMessage (ContentString []), ToolResultMessage None [], AssistantMessage []] []
     = [js ''### '' @ [0xD83D, 0xDD27] @ js '' Tool'', [], js ''[tool result]: '', []]"
  using toolResult_always_rendered
    [of None "[]" "[UserMessage (ContentString [])]" "[AssistantMessage []]" "[]"]
  by (simp add: js_def truthy_def trim_def isWhiteSpace_def roleLabel_def Let_def)

subsection \<open>Date and time stamps\<close>

lemma formatToParts_truthy:
  "formatToParts tz t = (year, month, day) \<Longrightarrow> truthy year \<and> truthy month \<and> truthy day"
  by (auto simp add: formatToParts_def truthy_def decimal_nonempty pad2_nonempty
           split: prod.splits)

lemma formatDateStamp_invalid:
  "\<not> validTime t \<Longrightarrow> formatDateStamp env t tzo = Inl RangeError"
  by (simp add: formatDateStamp_def)

lemma formatDateStamp_valid:
  assumes "validTime t"
  shows "formatDateStamp env t tzo =
           (case formatToParts (case tzo of Some z \<Rightarrow> z | None \<Rightarrow> systemTimeZone env) t of
              (year, month, day) \<Rightarrow> Inr (year @ js ''-'' @ month @ js ''-'' @ day))"
  using assms formatToParts_truthy
  by (auto simp add: formatDateStamp_def Let_def split: prod.splits)

lemma formatDateStamp_Inr: "formatDateStamp env t tzo = Inr d \<Longrightarrow> validTime t"
  by (cases "validTime t") (simp_all add: formatDateStamp_invalid)

lemma formatTimeStamp_invalid:
  "\<not> validTime t \<Longrightarrow> formatTimeStamp env t tzo = Inl RangeError"
  by (simp add: formatTimeStamp_def)

lemma formatTimeStamp_valid: "validTime t \<Longrightarrow> \<exists>s. formatTimeStamp env t tzo = Inr s"
  by (simp add: formatTimeStamp_def Let_def)

lemma formatDateStamp_same_day:
  assumes "validTime t1" "validTime t2"
    and "systemTimeZone env2 = systemTimeZone env1"
    and "localDay (case tzo of Some z \<Rightarrow> z | None \<Rightarrow> systemTimeZone env1) t1 =
         localDay (case tzo of Some z \<Rightarrow> z | None \<Rightarrow> systemTimeZone env1) t2"
  shows "formatDateStamp env1 t1 tzo = formatDateStamp env2 t2 tzo"
  using assms by (cases tzo) (simp_all add: formatDateStamp_valid formatToParts_def)

subsection \<open>The rendered block\<close>

lemma formatMessagesAsMarkdown_invalid:
  "\<not> validTime t \<Longrightarrow> formatMessagesAsMarkdown env msgs sk (Some t) = Inl RangeError"
  by (simp add: formatMessagesAsMarkdown_def formatDateStamp_invalid)

lemma formatMessagesAsMarkdown_valid:
  assumes "formatDateStamp env t None = Inr dateStamp"
    and "formatTimeStamp env t None = Inr timeStamp"
  shows "formatMessagesAsMarkdown env msgs sk (Some t) =
     Inr (join (js [CHR 0x0A])
           ([ [],
              js ''## '' @ ARCHIVE_MARKER,
              js ''**Archived at:** '' @ dateStamp @ js '' '' @ timeStamp,
              (case sk of Some k \<Rightarrow> if truthy k then js ''**Session:** '' @ k else []
               | None \<Rightarrow> []),
              js ''**Messages:** '' @ numberToString (int (length msgs)),
              [], js ''---'', [] ]
            @ concat (map (\<lambda>m. [js ''### '' @ roleLabel m, [], extractMessageText m, []])
                        (filter (\<lambda>m. truthy (trim (extractMessageText m))) msgs))
            @ [js ''---'', []]))"
  using assms by (simp add: formatMessagesAsMarkdown_def messageLines_filter)

subsection \<open>The file system\<close>

lemma foldr_mkdir_apply:
  "(foldr (\<lambda>d f. f(d \<mapsto> Directory)) dirs fs) p =
     (if p \<in> set dirs then Some Directory else fs p)"
  by (induction dirs) simp_all

lemma mkdir_Inr:
  assumes "mkdir env dir fs = Inr fs1"
  shows "(\<forall>d \<in> set (dir # parentDirs env dir). \<not> isFile (fs d))
       \<and> (\<forall>p. fs1 p = (if p \<in> set (dir # parentDirs env dir) then Some Directory else fs p))"
proof -
  from assms have ok: "\<not> list_ex (\<lambda>d. isFile (fs d)) (dir # parentDirs env dir)"
    and fs1: "fs1 = foldr (\<lambda>d f. f(d \<mapsto> Directory)) (dir # parentDirs env dir) fs"
    by (auto simp add: mkdir_def split: if_splits)
  from ok have "\<forall>d \<in> set (dir # parentDirs env dir). \<not> isFile (fs d)"
    by (simp only: list_ex_iff) blast
  moreover have "\<forall>p. fs1 p = (if p \<in> set (dir # parentDirs env dir) then Some Directory
                               else fs p)"
    unfolding fs1 by (simp only: foldr_mkdir_apply) simp
  ultimately show ?thesis by simp
qed

lemma mkdir_keeps_file:
  assumes "mkdir env dir fs = Inr fs1" and "fs p = Some (File c)"
  shows "fs1 p = Some (File c)"
proof -
  from mkdir_Inr [OF assms(1)] have
    nf: "\<forall>d \<in> set (dir # parentDirs env dir). \<not> isFile (fs d)" and
    ap: "fs1 p = (if p \<in> set (dir # parentDirs env dir) then Some Directory else fs p)"
    by blast+
  from assms(2) have "isFile (fs p)" by (simp add: isFile_def)
  with nf have "p \<notin> set (dir # parentDirs env dir)" by blast
  with ap assms(2) show ?thesis by simp
qed

lemma appendFile_Inr:
  "appendFile env path data fs = Inr fs2 \<Longrightarrow>
     fs path \<noteq> Some Directory
     \<and> fs2 = fs(path \<mapsto> File ((case fs path of Some (File old) \<Rightarrow> old | _ \<Rightarrow> []) @ data))"
  by (auto simp add: appendFile_def split: if_splits option.splits Node.splits)

subsection \<open>archiveMessagesToMemory\<close>

lemma archive_Inr:
  assumes "archiveMessagesToMemory env params fs = (Inr r, fs')"
    and "nowMs = (case timestamp params of Some t \<Rightarrow> t | None \<Rightarrow> dateNow env)"
    and "memoryDir = pathJoin env (workspaceDir params) (js ''memory'')"
  shows "\<exists>dateStamp content fs1.
           formatDateStamp env nowMs (timezone params) = Inr dateStamp
           \<and> mkdir env memoryDir fs = Inr fs1
           \<and> formatMessagesAsMarkdown env (messages params) (sessionKey params) (Some nowMs)
               = Inr content
           \<and> appendFile env (pathJoin env memoryDir (dateStamp @ js ''.md'')) content fs1
               = Inr fs'
           \<and> r = \<lparr>archivePath = pathJoin env memoryDir (dateStamp @ js ''.md''),
                   messageCount = length (messages params)\<rparr>"
  using assms
  by (auto simp add: archiveMessagesToMemory_def Let_def split: sum.splits)

lemma formatDateStamp_returns: "validTime t \<Longrightarrow> \<exists>d. formatDateStamp env t tzo = Inr d"
  by (cases "formatToParts (case tzo of Some z \<Rightarrow> z | None \<Rightarrow> systemTimeZone env) t")
     (simp add: formatDateStamp_valid)

section \<open>The archive\<close>

text \<open>
  C6. Whenever \<open>archiveMessagesToMemory\<close> returns, \<open>messageCount\<close> is the length of the
  input array and the archive file ends with the rendered block, whose \<open>Messages\<close> line
  shows that same length and whose sections are those of the messages with a non-blank
  extracted text, in order.
\<close>

theorem archive_counts_every_message:
  assumes "archiveMessagesToMemory env params fs = (Inr r, fs')"
  shows
    "messageCount r = length (messages params)
     \<and> (\<exists>old dateStamp timeStamp.
           fs' (archivePath r) =
             Some (File (old @ join (js [CHR 0x0A])
               ([ [],
                  js ''## '' @ ARCHIVE_MARKER,
                  js ''**Archived at:** '' @ dateStamp @ js '' '' @ timeStamp,
                  (case sessionKey params of
                     Some k \<Rightarrow> if truthy k then js ''**Session:** '' @ k else []
                   | None \<Rightarrow> []),
                  js ''**Messages:** '' @ numberToString (int (length (messages params))),
                  [], js ''---'', [] ]
                @ concat (map (\<lambda>m. [js ''### '' @ roleLabel m, [], extractMessageText m, []])
                            (filter (\<lambda>m. truthy (trim (extractMessageText m)))
                               (messages params)))
                @ [js ''---'', []]))))"
proof -
  define nowMs where "nowMs = (case timestamp params of Some t \<Rightarrow> t | None \<Rightarrow> dateNow env)"
  define memoryDir where "memoryDir = pathJoin env (workspaceDir params) (js ''memory'')"
  from archive_Inr [OF assms nowMs_def memoryDir_def] obtain dateStamp content fs1 where
    d: "formatDateStamp env nowMs (timezone params) = Inr dateStamp" and
    c: "formatMessagesAsMarkdown env (messages params) (sessionKey params) (Some nowMs)
          = Inr content" and
    a: "appendFile env (pathJoin env memoryDir (dateStamp @ js ''.md'')) content fs1 = Inr fs'" and
    r: "r = \<lparr>archivePath = pathJoin env memoryDir (dateStamp @ js ''.md''),
              messageCount = length (messages params)\<rparr>"
    by blast
  from r have count: "messageCount r = length (messages params)" by simp
  from d have v: "validTime nowMs" by (rule formatDateStamp_Inr)
  then obtain d0 where d0: "formatDateStamp env nowMs None = Inr d0"
    using formatDateStamp_returns by blast
  from v obtain t0 where t0: "formatTimeStamp env nowMs None = Inr t0"
    using formatTimeStamp_valid by blast
  from appendFile_Inr [OF a] r obtain old where
    "fs' (archivePath r) = Some (File (old @ content))"
    by auto
  with c have "\<exists>old dateStamp timeStamp.
           fs' (archivePath r) =
             Some (File (old @ join (js [CHR 0x0A])
               ([ [],
                  js ''## '' @ ARCHIVE_MARKER,
                  js ''**Archived at:** '' @ dateStamp @ js '' '' @ timeStamp,
                  (case sessionKey params of
                     Some k \<Rightarrow> if truthy k then js ''**Session:** '' @ k else []
                   | None \<Rightarrow> []),
                  js ''**Messages:** '' @ numberToString (int (length (messages params))),
                  [], js ''---'', [] ]
                @ concat (map (\<lambda>m. [js ''### '' @ roleLabel m, [], extractMessageText m, []])
                            (filter (\<lambda>m. truthy (trim (extractMessageText m)))
                               (messages params)))
                @ [js ''---'', []])))"
    unfolding formatMessagesAsMarkdown_valid [OF d0 t0] by blast
  with count show ?thesis by simp
qed

theorem archive_counts_every_message_witness:
  "\<exists>r fs'. archiveMessagesToMemory (posixEnv utc)
              \<lparr>messages = [UserMessage (ContentString (js ''hi'')), AssistantMessage [],
                           UserMessage (ContentString (js '' ''))],
               workspaceDir = js ''/w'', sessionKey = None,
               timestamp = Some 1771425000000, timezone = None\<rparr> Map.empty = (Inr r, fs')
            \<and> messageCount r = 3"
proof -
  let ?p = "\<lparr>messages = [UserMessage (ContentString (js ''hi'')), AssistantMessage [],
                           UserMessage (ContentString (js '' ''))],
               workspaceDir = js ''/w'', sessionKey = None,
               timestamp = Some 1771425000000, timezone = None\<rparr>"
  let ?r = "\<lparr>archivePath = js ''/w/memory/2026-02-18.md'', messageCount = 3\<rparr>"
  let ?fs' = "snd (archiveMessagesToMemory (posixEnv utc) ?p Map.empty)"
  have "fst (archiveMessagesToMemory (posixEnv utc) ?p Map.empty) = Inr ?r"
    by code_simp
  then have h: "archiveMessagesToMemory (posixEnv utc) ?p Map.empty = (Inr ?r, ?fs')"
    by (simp add: prod_eq_iff)
  from archive_counts_every_message [OF h] have "messageCount ?r = length (messages ?p)"
    by blast
  with h show ?thesis by auto
qed

lemma archive_keeps_files:
  assumes "archiveMessagesToMemory env params fs = (res, fs')"
    and "fs path = Some (File c)"
  shows "\<exists>x. fs' path = Some (File (c @ x))"
proof -
  define memoryDir where "memoryDir = pathJoin env (workspaceDir params) (js ''memory'')"
  have m: "\<And>fs1. mkdir env memoryDir fs = Inr fs1 \<Longrightarrow> fs1 path = Some (File c)"
    using assms(2) by (rule mkdir_keeps_file [rotated])
  have a: "\<And>fs1 fs2 p data. fs1 path = Some (File c) \<Longrightarrow> appendFile env p data fs1 = Inr fs2
             \<Longrightarrow> \<exists>x. fs2 path = Some (File (c @ x))"
    by (auto dest!: appendFile_Inr)
  show ?thesis
    using assms m a
    unfolding archiveMessagesToMemory_def Let_def memoryDir_def [symmetric]
    by (auto split: sum.splits)
qed

text \<open>
  A workspace path that is a regular file: the directory cannot be made, the call fails
  and nothing is written.
\<close>

lemma archive_fails_when_workspace_is_file:
  "fst (archiveMessagesToMemory (posixEnv utc)
          \<lparr>messages = [], workspaceDir = js ''/w'', sessionKey = None,
           timestamp = Some 1771425000000, timezone = None\<rparr>
          [js ''/w'' \<mapsto> File []]) = Inl FsError
   \<and> snd (archiveMessagesToMemory (posixEnv utc)
          \<lparr>messages = [], workspaceDir = js ''/w'', sessionKey = None,
           timestamp = Some 1771425000000, timezone = None\<rparr>
          [js ''/w'' \<mapsto> File []]) (js ''/w/memory/2026-02-18.md'') = None"
  by code_simp

text \<open>
  C8. Two calls in a row for the same workspace and time zone, with timestamps on the same
  calendar day, write to the same archive path, and the file then holds what it held
  before the first call followed by the block of the first call and the block of the
  second; a call changes a file only by appending to it.
\<close>

theorem archive_appends_in_call_order:
  assumes "archiveMessagesToMemory env p1 fs = (Inr r1, fs1)"
    and "archiveMessagesToMemory (env\<lparr>dateNow := now2\<rparr>) p2 fs1 = (Inr r2, fs2)"
    and "workspaceDir p2 = workspaceDir p1"
    and "timezone p2 = timezone p1"
    and "t1 = (case timestamp p1 of Some t \<Rightarrow> t | None \<Rightarrow> dateNow env)"
    and "t2 = (case timestamp p2 of Some t \<Rightarrow> t | None \<Rightarrow> now2)"
    and "tz = (case timezone p1 of Some z \<Rightarrow> z | None \<Rightarrow> systemTimeZone env)"
    and "localDay tz t1 = localDay tz t2"
  shows "archivePath r2 = archivePath r1
     \<and> (\<exists>c1 c2.
           formatMessagesAsMarkdown env (messages p1) (sessionKey p1) (Some t1) = Inr c1
           \<and> formatMessagesAsMarkdown (env\<lparr>dateNow := now2\<rparr>) (messages p2) (sessionKey p2)
                (Some t2) = Inr c2
           \<and> fs2 (archivePath r1) =
               Some (File ((case fs (archivePath r1) of Some (File old) \<Rightarrow> old | _ \<Rightarrow> [])
                           @ c1 @ c2)))
     \<and> (\<forall>path c. fs path = Some (File c) \<longrightarrow> (\<exists>x. fs1 path = Some (File (c @ x))))"
proof -
  define memoryDir where "memoryDir = pathJoin env (workspaceDir p1) (js ''memory'')"
  let ?env2 = "env\<lparr>dateNow := now2\<rparr>"
  have t2: "t2 = (case timestamp p2 of Some t \<Rightarrow> t | None \<Rightarrow> dateNow ?env2)"
    using assms(6) by (cases "timestamp p2") simp_all
  have mem2: "memoryDir = pathJoin ?env2 (workspaceDir p2) (js ''memory'')"
    using assms(3) by (simp add: memoryDir_def)
  from archive_Inr [OF assms(1) assms(5) memoryDir_def] obtain d1 c1 fsa where
    d1: "formatDateStamp env t1 (timezone p1) = Inr d1" and
    m1: "mkdir env memoryDir fs = Inr fsa" and
    c1: "formatMessagesAsMarkdown env (messages p1) (sessionKey p1) (Some t1) = Inr c1" and
    a1: "appendFile env (pathJoin env memoryDir (d1 @ js ''.md'')) c1 fsa = Inr fs1" and
    r1: "r1 = \<lparr>archivePath = pathJoin env memoryDir (d1 @ js ''.md''),
                messageCount = length (messages p1)\<rparr>"
    by blast
  from archive_Inr [OF assms(2) t2 mem2] obtain d2 c2 fsb where
    d2: "formatDateStamp ?env2 t2 (timezone p2) = Inr d2" and
    m2: "mkdir ?env2 memoryDir fs1 = Inr fsb" and
    c2: "formatMessagesAsMarkdown ?env2 (messages p2) (sessionKey p2) (Some t2) = Inr c2" and
    a2: "appendFile ?env2 (pathJoin ?env2 memoryDir (d2 @ js ''.md'')) c2 fsb = Inr fs2" and
    r2: "r2 = \<lparr>archivePath = pathJoin ?env2 memoryDir (d2 @ js ''.md''),
                messageCount = length (messages p2)\<rparr>"
    by blast
  have "formatDateStamp env t1 (timezone p1) = formatDateStamp ?env2 t2 (timezone p1)"
    using formatDateStamp_Inr [OF d1] formatDateStamp_Inr [OF d2] assms(7,8)
    by (intro formatDateStamp_same_day) simp_all
  with d1 d2 assms(4) have same: "d2 = d1" by simp
  let ?path = "pathJoin env memoryDir (d1 @ js ''.md'')"
  let ?old = "case fs ?path of Some (File old) \<Rightarrow> old | _ \<Rightarrow> []"
  have p: "archivePath r1 = ?path" "archivePath r2 = ?path"
    using r1 r2 same by simp_all
  from mkdir_Inr [OF m1] have
    fsa: "\<And>q. fsa q = (if q \<in> set (memoryDir # parentDirs env memoryDir) then Some Directory
                          else fs q)"
    by blast
  from appendFile_Inr [OF a1] have
    nd1: "fsa ?path \<noteq> Some Directory" and
    fs1: "fs1 = fsa(?path \<mapsto> File ((case fsa ?path of Some (File old) \<Rightarrow> old | _ \<Rightarrow> [])
                                     @ c1))"
    by blast+
  from nd1 fsa have "fsa ?path = fs ?path" by (simp split: if_splits)
  with fs1 have f1: "fs1 ?path = Some (File (?old @ c1))" by simp
  from mkdir_keeps_file [OF m2 f1] have "fsb ?path = Some (File (?old @ c1))" .
  with appendFile_Inr [OF a2] same have
    "fs2 ?path = Some (File ((?old @ c1) @ c2))"
    by simp
  with c1 c2 p have
    "\<exists>c1 c2.
       formatMessagesAsMarkdown env (messages p1) (sessionKey p1) (Some t1) = Inr c1
       \<and> formatMessagesAsMarkdown ?env2 (messages p2) (sessionKey p2) (Some t2) = Inr c2
       \<and> fs2 (archivePath r1) =
           Some (File ((case fs (archivePath r1) of Some (File old) \<Rightarrow> old | _ \<Rightarrow> [])
                       @ c1 @ c2))"
    by simp
  moreover have "\<forall>path c. fs path = Some (File c) \<longrightarrow> (\<exists>x. fs1 path = Some (File (c @ x)))"
    using archive_keeps_files [OF assms(1)] by blast
  ultimately show ?thesis using p by simp
qed

theorem archive_appends_in_call_order_witness:
  "\<exists>c1 c2.
     formatMessagesAsMarkdown (posixEnv utc) [UserMessage (ContentString (js ''First batch''))]
       None (Some 1771425000000) = Inr c1
     \<and> formatMessagesAsMarkdown ((posixEnv utc)\<lparr>dateNow := 1771425001000\<rparr>)
         [UserMessage (ContentString (js ''Second batch''))] None (Some 1771425001000) = Inr c2
     \<and> snd (archiveMessagesToMemory ((posixEnv utc)\<lparr>dateNow := 1771425001000\<rparr>)
              \<lparr>messages = [UserMessage (ContentString (js ''Second batch''))],
               workspaceDir = js ''/w'', sessionKey = None, timestamp = None,
               timezone = None\<rparr>
              (snd (archiveMessagesToMemory (posixEnv utc)
                      \<lparr>messages = [UserMessage (ContentString (js ''First batch''))],
                       workspaceDir = js ''/w'', sessionKey = None,
                       timestamp = Some 1771425000000, timezone = None\<rparr>
                      Map.empty)))
         (js ''/w/memory/2026-02-18.md'') = Some (File (c1 @ c2))"
proof -
  let ?p1 = "\<lparr>messages = [UserMessage (ContentString (js ''First batch''))],
                workspaceDir = js ''/w'', sessionKey = None,
                timestamp = Some 1771425000000, timezone = None\<rparr>"
  let ?p2 = "\<lparr>messages = [UserMessage (ContentString (js ''Second batch''))],
                workspaceDir = js ''/w'', sessionKey = None, timestamp = None,
                timezone = None\<rparr>"
  let ?env2 = "(posixEnv utc)\<lparr>dateNow := 1771425001000\<rparr>"
  let ?fs1 = "snd (archiveMessagesToMemory (posixEnv utc) ?p1 Map.empty)"
  let ?fs2 = "snd (archiveMessagesToMemory ?env2 ?p2 ?fs1)"
  let ?r1 = "\<lparr>archivePath = js ''/w/memory/2026-02-18.md'', messageCount = 1\<rparr>"
  have "fst (archiveMessagesToMemory (posixEnv utc) ?p1 Map.empty) = Inr ?r1"
    by code_simp
  then have h1: "archiveMessagesToMemory (posixEnv utc) ?p1 Map.empty = (Inr ?r1, ?fs1)"
    by (simp add: prod_eq_iff)
  have "fst (archiveMessagesToMemory ?env2 ?p2 ?fs1) = Inr ?r1"
    by code_simp
  then have h2: "archiveMessagesToMemory ?env2 ?p2 ?fs1 = (Inr ?r1, ?fs2)"
    by (simp add: prod_eq_iff)
  have day: "localDay utc 1771425000000 = localDay utc 1771425001000"
    by (simp add: localDay_def utc_def msPerDay_def)
  show ?thesis
    using archive_appends_in_call_order [OF h1 h2 _ _ refl refl refl] day
    by (simp add: posixEnv_def)
qed

section \<open>The placeholder\<close>

lemma dateShaped_parts:
  assumes "length y4 = 4" "list_all isDigit y4" "length mm = 2" "list_all isDigit mm"
    "length dd = 2" "list_all isDigit dd"
  shows "dateShaped (y4 @ js ''-'' @ mm @ js ''-'' @ dd)"
  using assms by (simp add: dateShaped_def js_def)

lemma hasDate_substring: "dateShaped dt \<Longrightarrow> hasDate (a @ dt @ b)"
proof (induction a)
  case Nil
  then have "length dt = 10" by (simp add: dateShaped_def)
  then obtain c cs where "dt = c # cs" by (cases dt) simp_all
  with Nil \<open>length dt = 10\<close> show ?case by simp
next
  case (Cons x a)
  then show ?case by simp
qed

lemma hasDate_iff: "hasDate s = (\<exists>a dt b. s = a @ dt @ b \<and> dateShaped dt)"
proof
  show "hasDate s \<Longrightarrow> \<exists>a dt b. s = a @ dt @ b \<and> dateShaped dt"
  proof (induction s)
    case Nil
    then show ?case by simp
  next
    case (Cons c cs)
    show ?case
    proof (cases "dateShaped (take 10 (c # cs))")
      case True
      have "c # cs = [] @ take 10 (c # cs) @ drop 10 (c # cs)" by simp
      with True show ?thesis by blast
    next
      case False
      with Cons obtain a dt b where "cs = a @ dt @ b" "dateShaped dt" by auto
      then have "c # cs = (c # a) @ dt @ b" by simp
      with \<open>dateShaped dt\<close> show ?thesis by blast
    qed
  qed
next
  show "\<exists>a dt b. s = a @ dt @ b \<and> dateShaped dt \<Longrightarrow> hasDate s"
    using hasDate_substring by blast
qed

lemma decimal_last4:
  assumes "1000 \<le> n"
  shows "\<exists>p y4. decimal n = p @ y4 \<and> length y4 = 4 \<and> list_all isDigit y4"
proof -
  let ?k = "length (decimal n) - 4"
  have "4 \<le> length (decimal n)" using assms by (rule decimal_length_ge4)
  then have "length (drop ?k (decimal n)) = 4" by simp
  moreover have "list_all isDigit (drop ?k (decimal n))"
    using decimal_digits [of n] by (metis append_take_drop_id list_all_append)
  moreover have "decimal n = take ?k (decimal n) @ drop ?k (decimal n)" by simp
  ultimately show ?thesis by blast
qed

lemma formatDateStamp_shape:
  assumes "validTime t"
    and "civilFromDays (localDay (case tzo of Some z \<Rightarrow> z | None \<Rightarrow> systemTimeZone env) t)
           = (y, m, d)"
    and "1000 \<le> y"
  shows "\<exists>p dt. formatDateStamp env t tzo = Inr (p @ dt) \<and> dateShaped dt"
proof -
  from civilFromDays_bounds [OF assms(2)] have b: "1 \<le> m" "m \<le> 12" "1 \<le> d" "d \<le> 31"
    by simp_all
  from assms(3) have "1000 \<le> nat y" by simp
  then obtain p y4 where y: "decimal (nat y) = p @ y4" "length y4 = 4" "list_all isDigit y4"
    using decimal_last4 by blast
  have mm: "length (pad2 m) = 2" "list_all isDigit (pad2 m)"
    using b pad2_shape [of m] by simp_all
  have dd: "length (pad2 d) = 2" "list_all isDigit (pad2 d)"
    using b pad2_shape [of d] by simp_all
  have "formatDateStamp env t tzo = Inr (p @ (y4 @ js ''-'' @ pad2 m @ js ''-'' @ pad2 d))"
    using assms y by (simp add: formatDateStamp_valid formatToParts_def)
  moreover have "dateShaped (y4 @ js ''-'' @ pad2 m @ js ''-'' @ pad2 d)"
    using y mm dd by (intro dateShaped_parts)
  ultimately show ?thesis by blast
qed

lemma createDropPlaceholder_invalid:
  "\<not> validTime (case pTimestamp params of Some t \<Rightarrow> t | None \<Rightarrow> dateNow env) \<Longrightarrow>
     createDropPlaceholder env params = Inl RangeError"
  by (simp add: createDropPlaceholder_def formatDateStamp_invalid)

lemma createDropPlaceholder_valid:
  assumes "nowMs = (case pTimestamp params of Some t \<Rightarrow> t | None \<Rightarrow> dateNow env)"
    and "formatDateStamp env nowMs None = Inr dateStamp"
    and "formatTimeStamp env nowMs None = Inr timeStamp"
  shows "createDropPlaceholder env params =
     Inr (js ''[Earlier conversation archived at '' @ dateStamp @ js '' '' @ timeStamp @ js '']''
          @ js [CHR 0x0A]
          @ numberToString (sint (pMessageCount params))
          @ js '' messages moved to memory for RAG retrieval.''
          @ js [CHR 0x0A]
          @ (case pArchivePath params of
               Some p \<Rightarrow> if truthy p then js ''Archive: '' @ p @ js [CHR 0x0A] else []
             | None \<Rightarrow> [])
          @ js ''Use memory_search to retrieve past context if needed.'')"
  using assms by (simp add: createDropPlaceholder_def split: option.splits)

text \<open>
  C9. The claim holds of the date only while the year has four digits. With the system in
  UTC, a timestamp on 25 August 987 gives the date stamp \<open>987-08-25\<close>, the year printed
  without padding, and the returned string has no substring of the shape \<open>YYYY-MM-DD\<close>
  (\<open>hasDate\<close> decides that, by \<open>hasDate_iff\<close>); the other branch of \<open>formatDateStamp\<close>,
  the first ten characters of \<open>toISOString\<close>, would give \<open>0987-08-25\<close>.
\<close>

theorem placeholder_date_year_not_padded:
  "createDropPlaceholder (posixEnv utc)
     \<lparr>pMessageCount = 5, pArchivePath = None, pTimestamp = Some (- 31000000000000)\<rparr>
   = Inr (js (''[Earlier conversation archived at 987-08-25 16:53:20]'' @ [CHR 0x0A]
              @ ''5 messages moved to memory for RAG retrieval.'' @ [CHR 0x0A]
              @ ''Use memory_search to retrieve past context if needed.''))
   \<and> \<not> hasDate (js (''[Earlier conversation archived at 987-08-25 16:53:20]'' @ [CHR 0x0A]
              @ ''5 messages moved to memory for RAG retrieval.'' @ [CHR 0x0A]
              @ ''Use memory_search to retrieve past context if needed.''))
   \<and> formatDateStamp (posixEnv utc) (- 31000000000000) None = Inr (js ''987-08-25'')
   \<and> take 10 (toISOString (- 31000000000000)) = js ''0987-08-25''"
  by code_simp

section \<open>The time zone of the rendered block\<close>

text \<open>
  C1. With the system in UTC and the time zone of Tokyo given, archiving at
  2024-01-01T23:30:00Z writes to the file of 2 January, the date in Tokyo, while the
  \<open>Archived at\<close> line of the block shows 1 January, 23:30:00, the date and time in UTC:
  \<open>formatMessagesAsMarkdown\<close> is not given the time zone.
\<close>

theorem archive_block_ignores_timezone:
  "fst (archiveMessagesToMemory (posixEnv utc)
          \<lparr>messages = [], workspaceDir = js ''/w'', sessionKey = None,
           timestamp = Some 1704151800000, timezone = Some tokyo\<rparr> Map.empty)
   = Inr \<lparr>archivePath = js ''/w/memory/2024-01-02.md'', messageCount = 0\<rparr>
   \<and> snd (archiveMessagesToMemory (posixEnv utc)
          \<lparr>messages = [], workspaceDir = js ''/w'', sessionKey = None,
           timestamp = Some 1704151800000, timezone = Some tokyo\<rparr> Map.empty)
         (js ''/w/memory/2024-01-02.md'')
   = Some (File (js ([CHR 0x0A] @ ''## [ARCHIVED_CONVERSATION]'' @ [CHR 0x0A]
        @ ''**Archived at:** 2024-01-01 23:30:00'' @ [CHR 0x0A] @ [CHR 0x0A]
        @ ''**Messages:** 0'' @ [CHR 0x0A] @ [CHR 0x0A] @ ''---'' @ [CHR 0x0A] @ [CHR 0x0A]
        @ ''---'' @ [CHR 0x0A])))"
  by code_simp

section \<open>Session freshness\<close>

lemma day_floor:
  fixes l :: int
  shows "(l div 86400000) * 86400000 \<le> l \<and> l < (l div 86400000) * 86400000 + 86400000"
  by arith

lemma same_residue_gap:
  fixes x y :: int
  assumes "x mod 86400000 = y mod 86400000" "y < x"
  shows "y + 86400000 \<le> x"
proof -
  define r where "r = y mod 86400000"
  define qx where "qx = x div 86400000"
  define qy where "qy = y div 86400000"
  have x: "x = qx * 86400000 + r"
    unfolding qx_def r_def assms(1) [symmetric] by simp
  have y: "y = qy * 86400000 + r"
    unfolding qy_def r_def by simp
  from assms(2) have "qy < qx" unfolding x y by simp
  then have "qy + 1 \<le> qx" by simp
  then show ?thesis unfolding x y by simp
qed

lemma dailyBoundary_props:
  assumes "0 \<le> h" "h \<le> 23"
  shows "dailyBoundary offset h now \<le> now
       \<and> now < dailyBoundary offset h now + msPerDay
       \<and> (dailyBoundary offset h now + offset) mod msPerDay = h * 3600000"
proof -
  define l where "l = now + offset"
  define q where "q = l div 86400000"
  define c where "c = q * 86400000 + h * 3600000"
  have b: "dailyBoundary offset h now = (if c \<le> l then c else c - 86400000) - offset"
    by (simp add: dailyBoundary_def Let_def msPerDay_def c_def q_def l_def)
  have fl: "q * 86400000 \<le> l" "l < q * 86400000 + 86400000"
    unfolding q_def using day_floor [of l] by simp_all
  have H: "0 \<le> h * 3600000" "h * 3600000 < 86400000" using assms by simp_all
  have cm: "c mod 86400000 = h * 3600000"
    unfolding c_def using H by simp
  have cm': "(c - 86400000) mod 86400000 = h * 3600000"
    using cm by (metis minus_mod_self2)
  show ?thesis
  proof (cases "c \<le> l")
    case True
    then have bb: "dailyBoundary offset h now = c - offset" by (simp add: b)
    have "c - offset \<le> now" using True by (simp add: l_def)
    moreover have "now < c - offset + 86400000" using fl(2) H(1) by (simp add: c_def l_def)
    ultimately show ?thesis using cm by (simp add: bb msPerDay_def)
  next
    case False
    then have bb: "dailyBoundary offset h now = c - 86400000 - offset" by (simp add: b)
    have "c - 86400000 - offset \<le> now" using fl(1) H(2) by (simp add: c_def l_def)
    moreover have "now < c - 86400000 - offset + 86400000" using False by (simp add: l_def)
    ultimately show ?thesis using cm' by (simp add: bb msPerDay_def)
  qed
qed

lemma dailyBoundary_latest:
  assumes "0 \<le> h" "h \<le> 23" "b' \<le> now" "(b' + offset) mod msPerDay = h * 3600000"
  shows "b' \<le> dailyBoundary offset h now"
proof (rule ccontr)
  assume "\<not> b' \<le> dailyBoundary offset h now"
  then have lt: "dailyBoundary offset h now + offset < b' + offset" by simp
  have "(b' + offset) mod 86400000 = (dailyBoundary offset h now + offset) mod 86400000"
    using assms(4) dailyBoundary_props [OF assms(1,2), of offset now] by (simp add: msPerDay_def)
  from same_residue_gap [OF this lt]
  have "dailyBoundary offset h now + msPerDay \<le> b'" by (simp add: msPerDay_def)
  with dailyBoundary_props [OF assms(1,2), of offset now] assms(3) show False by simp
qed

text \<open>
  C2. In the daily mode, with \<open>atHour\<close> between 0 and 23, the boundary is an instant at
  \<open>atHour:00:00\<close> local time, not after \<open>now\<close>, and the latest such instant; the session
  is fresh exactly when \<open>updatedAt\<close> is not before the boundary; and the boundary is
  reported as \<open>dailyResetAt\<close> whether the session is fresh or not.
\<close>

theorem daily_fresh_iff_after_boundary:
  assumes "mode policy = Daily" and "0 \<le> atHour policy" and "atHour policy \<le> 23"
    and "boundary = dailyBoundary offset (atHour policy) now"
  shows "boundary \<le> now
     \<and> (boundary + offset) mod msPerDay = atHour policy * 3600000
     \<and> (\<forall>b. b \<le> now \<and> (b + offset) mod msPerDay = atHour policy * 3600000
            \<longrightarrow> b \<le> boundary)
     \<and> fresh (evaluateSessionFreshness offset updatedAt now policy) = (boundary \<le> updatedAt)
     \<and> dailyResetAt (evaluateSessionFreshness offset updatedAt now policy) = Some boundary"
proof -
  have "boundary \<le> now \<and> (boundary + offset) mod msPerDay = atHour policy * 3600000"
    unfolding assms(4) using dailyBoundary_props [OF assms(2,3), of offset now] by simp
  moreover have "\<forall>b. b \<le> now \<and> (b + offset) mod msPerDay = atHour policy * 3600000
            \<longrightarrow> b \<le> boundary"
    unfolding assms(4) using dailyBoundary_latest [OF assms(2,3)] by blast
  moreover have "fresh (evaluateSessionFreshness offset updatedAt now policy)
                   = (boundary \<le> updatedAt)"
    using assms(1,4) by (simp add: evaluateSessionFreshness_def Let_def)
  moreover have "dailyResetAt (evaluateSessionFreshness offset updatedAt now policy)
                   = Some boundary"
    using assms(1,4) by (simp add: evaluateSessionFreshness_def Let_def)
  ultimately show ?thesis by simp
qed

text \<open>
  The example of the spec, in UTC: with \<open>atHour = 4\<close>, a session last updated at 03:00 on
  17 February 2026 and evaluated at noon on 18 February is stale, and the boundary is
  04:00 on 18 February.
\<close>

theorem daily_fresh_iff_after_boundary_witness:
  "fresh (evaluateSessionFreshness 0 1771297200000 1771416000000
            \<lparr>mode = Daily, atHour = 4, idleMinutes = None\<rparr>) = False
   \<and> dailyResetAt (evaluateSessionFreshness 0 1771297200000 1771416000000
            \<lparr>mode = Daily, atHour = 4, idleMinutes = None\<rparr>) = Some 1771387200000"
proof -
  have b: "1771387200000 = dailyBoundary 0 (atHour \<lparr>mode = Daily, atHour = 4, idleMinutes = None\<rparr>)
             1771416000000"
    by (simp add: dailyBoundary_def msPerDay_def)
  show ?thesis
    using daily_fresh_iff_after_boundary
      [where policy = "\<lparr>mode = Daily, atHour = 4, idleMinutes = None\<rparr>" and offset = 0
         and now = 1771416000000 and updatedAt = 1771297200000, OF _ _ _ b]
    by simp
qed

text \<open>
  C3. In the idle mode with \<open>idleMinutes\<close> given, \<open>idleExpiresAt\<close> is
  \<open>updatedAt + idleMinutes * 60000\<close>, the session is fresh exactly when \<open>now\<close> is before
  it, and at \<open>now = idleExpiresAt\<close> the session is stale.
\<close>

theorem idle_fresh_iff_before_expiry:
  assumes "mode policy = Idle" and "idleMinutes policy = Some minutes"
  shows "idleExpiresAt (evaluateSessionFreshness offset updatedAt now policy)
           = Some (updatedAt + minutes * 60000)
     \<and> fresh (evaluateSessionFreshness offset updatedAt now policy)
           = (now < updatedAt + minutes * 60000)
     \<and> (now = updatedAt + minutes * 60000
          \<longrightarrow> \<not> fresh (evaluateSessionFreshness offset updatedAt now policy))"
  using assms by (simp add: evaluateSessionFreshness_def Let_def)

theorem idle_fresh_iff_before_expiry_witness:
  "idleExpiresAt (evaluateSessionFreshness 0 1000 1801000
                    \<lparr>mode = Idle, atHour = 4, idleMinutes = Some 30\<rparr>) = Some 1801000
   \<and> \<not> fresh (evaluateSessionFreshness 0 1000 1801000
                 \<lparr>mode = Idle, atHour = 4, idleMinutes = Some 30\<rparr>)
   \<and> fresh (evaluateSessionFreshness 0 1000 1800999
               \<lparr>mode = Idle, atHour = 4, idleMinutes = Some 30\<rparr>)"
  using idle_fresh_iff_before_expiry
      [where policy = "\<lparr>mode = Idle, atHour = 4, idleMinutes = Some 30\<rparr>" and minutes = 30
         and offset = 0 and updatedAt = 1000 and now = 1801000]
    idle_fresh_iff_before_expiry
      [where policy = "\<lparr>mode = Idle, atHour = 4, idleMinutes = Some 30\<rparr>" and minutes = 30
         and offset = 0 and updatedAt = 1000 and now = 1800999]
  by simp

text \<open>
  C4. In the never mode the session is fresh and neither \<open>dailyResetAt\<close> nor
  \<open>idleExpiresAt\<close> is reported, whatever \<open>updatedAt\<close>, \<open>now\<close> and the \<open>idleMinutes\<close> of
  the policy are.
\<close>

theorem never_always_fresh:
  assumes "mode policy = Never"
  shows "evaluateSessionFreshness offset updatedAt now policy
           = \<lparr>fresh = True, dailyResetAt = None, idleExpiresAt = None\<rparr>"
  using assms by (simp add: evaluateSessionFreshness_def Let_def)

theorem never_always_fresh_witness:
  "evaluateSessionFreshness 0 0 1209600000 \<lparr>mode = Never, atHour = 4, idleMinutes = Some 30\<rparr>
     = \<lparr>fresh = True, dailyResetAt = None, idleExpiresAt = None\<rparr>"
  using never_always_fresh
      [where policy = "\<lparr>mode = Never, atHour = 4, idleMinutes = Some 30\<rparr>" and offset = 0
         and updatedAt = 0 and now = 1209600000]
  by simp

text \<open>
  C5. \<open>resolveSessionResetPolicy\<close> returns the override when there is one; else the entry
  of the session type when \<open>resetByType\<close> has one; else the global policy when there is
  one; else the default, daily at hour 4. It is a total function into policies: there is
  no error result.
\<close>

theorem resolve_first_present:
  "(resetOverride = Some p \<longrightarrow>
      resolveSessionResetPolicy sessionCfg resetType resetOverride = p)
   \<and> (resetOverride = None \<and> resetByType sessionCfg = Some byType \<and> byType resetType = Some p
        \<longrightarrow> resolveSessionResetPolicy sessionCfg resetType resetOverride = p)
   \<and> (resetOverride = None
        \<and> (resetByType sessionCfg = None
            \<or> (\<exists>byType. resetByType sessionCfg = Some byType \<and> byType resetType = None))
        \<and> reset sessionCfg = Some p
        \<longrightarrow> resolveSessionResetPolicy sessionCfg resetType resetOverride = p)
   \<and> (resetOverride = None
        \<and> (resetByType sessionCfg = None
            \<or> (\<exists>byType. resetByType sessionCfg = Some byType \<and> byType resetType = None))
        \<and> reset sessionCfg = None
        \<longrightarrow> resolveSessionResetPolicy sessionCfg resetType resetOverride
              = \<lparr>mode = Daily, atHour = 4, idleMinutes = None\<rparr>)"
  by (auto simp add: resolveSessionResetPolicy_def DEFAULT_RESET_POLICY_def)

theorem resolve_first_present_witness:
  "resolveSessionResetPolicy
     \<lparr>reset = Some \<lparr>mode = Daily, atHour = 4, idleMinutes = None\<rparr>, resetByType = None\<rparr>
     (js ''direct'') (Some \<lparr>mode = Never, atHour = 4, idleMinutes = None\<rparr>)
     = \<lparr>mode = Never, atHour = 4, idleMinutes = None\<rparr>
   \<and> resolveSessionResetPolicy
       \<lparr>reset = Some \<lparr>mode = Daily, atHour = 4, idleMinutes = None\<rparr>,
        resetByType = Some [js ''direct'' \<mapsto> \<lparr>mode = Never, atHour = 4, idleMinutes = None\<rparr>]\<rparr>
       (js ''direct'') None
     = \<lparr>mode = Never, atHour = 4, idleMinutes = None\<rparr>
   \<and> resolveSessionResetPolicy
       \<lparr>reset = Some \<lparr>mode = Idle, atHour = 4, idleMinutes = Some 60\<rparr>,
        resetByType = Some [js ''direct'' \<mapsto> \<lparr>mode = Never, atHour = 4, idleMinutes = None\<rparr>]\<rparr>
       (js ''group'') None
     = \<lparr>mode = Idle, atHour = 4, idleMinutes = Some 60\<rparr>
   \<and> resolveSessionResetPolicy \<lparr>reset = None, resetByType = None\<rparr> (js ''direct'') None
     = \<lparr>mode = Daily, atHour = 4, idleMinutes = None\<rparr>"
  using resolve_first_present
      [where resetOverride = "Some \<lparr>mode = Never, atHour = 4, idleMinutes = None\<rparr>"
         and p = "\<lparr>mode = Never, atHour = 4, idleMinutes = None\<rparr>"
         and resetType = "js ''direct''"
         and sessionCfg = "\<lparr>reset = Some \<lparr>mode = Daily, atHour = 4, idleMinutes = None\<rparr>,
                           resetByType = None\<rparr>"]
    resolve_first_present
      [where resetOverride = None
         and p = "\<lparr>mode = Never, atHour = 4, idleMinutes = None\<rparr>"
         and resetType = "js ''direct''"
         and byType = "[js ''direct'' \<mapsto> \<lparr>mode = Never, atHour = 4, idleMinutes = None\<rparr>]"
         and sessionCfg = "\<lparr>reset = Some \<lparr>mode = Daily, atHour = 4, idleMinutes = None\<rparr>,
             resetByType = Some [js ''direct'' \<mapsto> \<lparr>mode = Never, atHour = 4, idleMinutes = None\<rparr>]\<rparr>"]
    resolve_first_present
      [where resetOverride = None
         and p = "\<lparr>mode = Idle, atHour = 4, idleMinutes = Some 60\<rparr>"
         and resetType = "js ''group''"
         and sessionCfg = "\<lparr>reset = Some \<lparr>mode = Idle, atHour = 4, idleMinutes = Some 60\<rparr>,
             resetByType = Some [js ''direct'' \<mapsto> \<lparr>mode = Never, atHour = 4, idleMinutes = None\<rparr>]\<rparr>"]
    resolve_first_present
      [where resetOverride = None and resetType = "js ''direct''"
         and sessionCfg = "\<lparr>reset = None, resetByType = None\<rparr>"]
  by (simp add: js_def)

end
